theory Spec2Isabelle
  imports Main
begin

section \<open>Strings\<close>

text \<open>
  Identifiers of the schema are ASCII; a Python \<open>str\<close> is modelled as a \<open>string\<close>.
  The character classes below are the ones the regular expressions of \<open>to_snake\<close> name:
  \<open>[A-Z]\<close>, \<open>[a-z]\<close> and \<open>[0-9]\<close>.
\<close>

definition upper_chars :: string where
  "upper_chars = ''ABCDEFGHIJKLMNOPQRSTUVWXYZ''"

definition lower_chars :: string where
  "lower_chars = ''abcdefghijklmnopqrstuvwxyz''"

definition digit_chars :: string where
  "digit_chars = ''0123456789''"

definition is_upper :: "char \<Rightarrow> bool" where
  "is_upper c = (c \<in> set upper_chars)"

definition is_lower :: "char \<Rightarrow> bool" where
  "is_lower c = (c \<in> set lower_chars)"

definition is_digit :: "char \<Rightarrow> bool" where
  "is_digit c = (c \<in> set digit_chars)"

text \<open>\<open>str.lower()\<close> on ASCII text.\<close>

definition lower_char :: "char \<Rightarrow> char" where
  "lower_char c = (case map_of (zip upper_chars lower_chars) c of Some l \<Rightarrow> l | None \<Rightarrow> c)"

definition lower :: "string \<Rightarrow> string" where
  "lower s = map lower_char s"

text \<open>\<open>sep.join(xs)\<close>.\<close>

fun join :: "string \<Rightarrow> string list \<Rightarrow> string" where
  "join sep [] = []"
| "join sep [x] = x"
| "join sep (x # y # ys) = x @ sep @ join sep (y # ys)"

section \<open>The name transformer\<close>

text \<open>
  \<open>to_snake\<close> applies three \<open>re.sub\<close> rewrites and lower-cases the result. Each
  rewrite is modelled by a scan from the left that replaces every non-overlapping match,
  as \<open>re.sub\<close> does: where the pattern matches at the current position the replacement is
  emitted and the scan goes on behind the match, otherwise one character is copied.

  \<open>sub_word\<close> is \<open>re.sub("(.)([A-Z][a-z]+)", r"\1_\2", name)\<close>: \<open>.\<close> is any character
  but a newline, and \<open>[a-z]+\<close> is greedy.
\<close>

function sub_word :: "string \<Rightarrow> string" where
  "sub_word (c # u # l # rest) =
     (if c \<noteq> CHR 0x0A \<and> is_upper u \<and> is_lower l
      then c # CHR ''_'' # u # l # takeWhile is_lower rest @ sub_word (dropWhile is_lower rest)
      else c # sub_word (u # l # rest))"
| "sub_word [c, u] = [c, u]"
| "sub_word [c] = [c]"
| "sub_word [] = []"
  by pat_completeness auto
termination
  by (relation "measure length") (auto simp: less_Suc_eq_le intro: le_trans [OF length_dropWhile_le])

text \<open>\<open>sub_double\<close> is \<open>re.sub("__([A-Z])", r"_\1", name)\<close>.\<close>

fun sub_double :: "string \<Rightarrow> string" where
  "sub_double (a # b # u # rest) =
     (if a = CHR ''_'' \<and> b = CHR ''_'' \<and> is_upper u
      then CHR ''_'' # u # sub_double rest
      else a # sub_double (b # u # rest))"
| "sub_double [a, b] = [a, b]"
| "sub_double [a] = [a]"
| "sub_double [] = []"

text \<open>\<open>sub_camel\<close> is \<open>re.sub("([a-z0-9])([A-Z])", r"\1_\2", name)\<close>.\<close>

fun sub_camel :: "string \<Rightarrow> string" where
  "sub_camel (a # u # rest) =
     (if (is_lower a \<or> is_digit a) \<and> is_upper u
      then a # CHR ''_'' # u # sub_camel rest
      else a # sub_camel (u # rest))"
| "sub_camel [a] = [a]"
| "sub_camel [] = []"

definition to_snake :: "string \<Rightarrow> string" where
  "to_snake name = lower (sub_camel (sub_double (sub_word name)))"

section \<open>The output: properties and models\<close>

text \<open>
  The fields of the three classes carry a short prefix (\<open>ap_\<close>, \<open>am_\<close>, \<open>ep_\<close>, and \<open>sh_\<close> for a shape), since
  several of them share the names \<open>name\<close>, \<open>prefix\<close> and \<open>type\<close>. \<open>from_name\<close> is a
  \<open>Union[str, List[str]]\<close>. An \<open>Optional[str]\<close> is a \<open>string option\<close>.
\<close>

datatype from_name = Member string | Path "string list"

record AwsProperty =
  ap_name :: string
  ap_from_name :: from_name
  ap_type :: string
  ap_description :: string
  ap_is_array :: bool
  ap_is_complex :: bool
  ap_field_default :: "string option"
  ap_extractor :: "string option"

record AwsModel =
  am_name :: string
  am_props :: "AwsProperty list"
  am_aggregate_root :: bool
  am_base_class :: "string option"
  am_api_info :: "(string \<times> string \<times> string) option"

record AwsResotoModel =
  ep_api_action :: string
  ep_result_property :: string
  ep_result_shape :: string
  ep_prefix :: "string option"
  ep_prop_prefix :: "string option"
  ep_name :: "string option"
  ep_base :: "string option"

text \<open>
  Python's \<open>x or y\<close> on an optional string: \<open>None\<close> and the empty string are falsy.
  \<open>fmt\<close> is how an f-string prints an optional string.
\<close>

fun truthy :: "string option \<Rightarrow> bool" where
  "truthy None = False"
| "truthy (Some s) = (s \<noteq> [])"

fun or_str :: "string option \<Rightarrow> string \<Rightarrow> string" where
  "or_str None d = d"
| "or_str (Some s) d = (if s = [] then d else s)"

fun fmt :: "string option \<Rightarrow> string" where
  "fmt None = ''None''"
| "fmt (Some s) = s"

definition nl :: string where
  "nl = [CHR 0x0A]"

definition dq :: string where
  "dq = [CHR 0x22]"

definition quoted :: "string \<Rightarrow> string" where
  "quoted s = dq @ s @ dq"

subsection \<open>\<open>AwsProperty\<close>\<close>

definition assignment :: "AwsProperty \<Rightarrow> string" where
  "assignment p =
     ''field('' @ or_str (ap_field_default p) (if ap_is_array p then ''factory=list'' else ''default=None'')
       @ '')''"

definition type_string :: "AwsProperty \<Rightarrow> string" where
  "type_string p =
     (if ap_is_array p then ''List['' @ ap_type p @ '']'' else ''Optional['' @ ap_type p @ '']'')"

definition mapping :: "AwsProperty \<Rightarrow> string" where
  "mapping p =
     (if truthy (ap_extractor p) then quoted (ap_name p) @ '': '' @ fmt (ap_extractor p)
      else
        let from_p = (case ap_from_name p of Path ps \<Rightarrow> ps | Member n \<Rightarrow> [n]);
            from_p_path = join '','' (map quoted from_p);
            base = quoted (ap_name p) @ '': S('' @ from_p_path
        in if ap_is_array p \<and> ap_is_complex p
             then base @ '', default=[]) >> ForallBend('' @ ap_type p @ ''.mapping)''
           else if ap_is_array p then base @ '', default=[])''
           else if ap_is_complex p then base @ '') >> Bend('' @ ap_type p @ ''.mapping)''
           else base @ '')'')"

subsection \<open>\<open>AwsModel\<close>\<close>

text \<open>The dictionary \<open>base_mapping\<close> of \<open>to_class\<close>, in insertion order.\<close>

definition base_mapping :: "(string \<times> string) list" where
  "base_mapping =
     [(''id'', ''S('' @ quoted ''id'' @ '')''),
      (''tags'', ''S('' @ quoted ''Tags'' @ '', default=[]) >> TagsToDict()''),
      (''name'', ''S('' @ quoted ''Tags'' @ '', default=[]) >> TagsValue('' @ quoted ''Name'' @ '')''),
      (''ctime'', ''K(None)''),
      (''mtime'', ''K(None)''),
      (''atime'', ''K(None)'')]"

text \<open>
  The text \<open>mapping\<close> that \<open>to_class\<close> builds (lines 74 to 79 of the source): the header,
  for an aggregate root the entries of \<open>base_mapping\<close> joined by a comma and a newline
  and followed by one, the entries of the properties joined the same way, and the
  closing brace.
\<close>

definition class_mapping :: "AwsModel \<Rightarrow> string" where
  "class_mapping m =
     ''    mapping: ClassVar[Dict[str, Bender]] = {'' @ nl
     @ (if am_aggregate_root m
        then join ('','' @ nl) (map (\<lambda>(k, v). ''        '' @ quoted k @ '': '' @ v) base_mapping)
             @ '','' @ nl
        else [])
     @ join ('','' @ nl) (map (\<lambda>p. ''        '' @ mapping p) (am_props m))
     @ nl @ ''    }''"

definition to_class :: "AwsModel \<Rightarrow> string" where
  "to_class m =
     (let bc = (if truthy (am_base_class m) then '', '' @ fmt (am_base_class m) else []);
          base = (if am_aggregate_root m then ''(AwsResource'' @ bc @ ''):'' else '':'');
          kind = ''    kind: ClassVar[str] = '' @ quoted (''aws_'' @ to_snake (drop 3 (am_name m)));
          api = (case am_api_info m of
                   Some (srv, act, res) \<Rightarrow>
                     ''    api_info: ClassVar[AwsApiSpec] = AwsApiSpec('' @ quoted srv @ '', ''
                       @ quoted act @ '', '' @ quoted res @ '')'' @ nl
                 | None \<Rightarrow> []);
          props = join nl (map (\<lambda>p. ''    '' @ ap_name p @ '': '' @ type_string p @ '' = '' @ assignment p)
                             (am_props m))
      in ''@define(eq=False, slots=False)'' @ nl @ ''class '' @ am_name m @ base @ nl @ kind @ nl
           @ api @ class_mapping m @ nl @ props @ nl)"

section \<open>The schema\<close>

text \<open>
  The schema is botocore's, a library outside the repository: a service model is a finite
  table of shapes, each with a name, a type name, a documentation text and the class
  botocore builds for it (\<open>StringShape\<close>, \<open>ListShape\<close>, \<open>MapShape\<close>, \<open>StructureShape\<close>,
  or the base class \<open>Shape\<close> for every other type). A shape refers to its children by
  name, so a shape may reach itself; an attribute that holds a child (\<open>members\<close>,
  \<open>member\<close>, \<open>key\<close>, \<open>value\<close>) looks the name up in the table and raises when it is
  absent.
\<close>

datatype shape_cls =
    Shape
  | StringShape
  | ListShape string
  | MapShape string string
  | StructureShape "(string \<times> string) list"

record shape =
  sh_name :: string
  sh_type_name :: string
  sh_documentation :: string
  sh_cls :: shape_cls

type_synonym ServiceModel = "shape list"

text \<open>\<open>isinstance(s, StructureShape)\<close>, \<open>isinstance(s, ListShape)\<close>, \<open>isinstance(s, MapShape)\<close>.\<close>

definition is_structure :: "shape \<Rightarrow> bool" where
  "is_structure s = (case sh_cls s of StructureShape refs \<Rightarrow> True | _ \<Rightarrow> False)"



datatype error =
    AssertionError string
  | NotImplementedError string
  | NoShapeFoundError string

definition shape_for :: "ServiceModel \<Rightarrow> string \<Rightarrow> error + shape" where
  "shape_for model n =
     (case find (\<lambda>s. sh_name s = n) model of
        None \<Rightarrow> Inl (NoShapeFoundError n)
      | Some s \<Rightarrow> Inr s)"

text \<open>\<open>s.members\<close> of a structure: every member is resolved when the attribute is read.\<close>

fun members :: "ServiceModel \<Rightarrow> (string \<times> string) list \<Rightarrow> error + (string \<times> shape) list" where
  "members model [] = Inr []"
| "members model ((n, r) # refs) =
     (case shape_for model r of
        Inl e \<Rightarrow> Inl e
      | Inr s \<Rightarrow>
          (case members model refs of
             Inl e \<Rightarrow> Inl e
           | Inr ms \<Rightarrow> Inr ((n, s) # ms)))"

section \<open>The type normalizer and the shape classifier\<close>

definition simple_type_map_base :: "(string \<times> string) list" where
  "simple_type_map_base =
     [(''Long'', ''int''),
      (''Float'', ''float''),
      (''Double'', ''float''),
      (''Integer'', ''int''),
      (''Boolean'', ''bool''),
      (''String'', ''str''),
      (''DateTime'', ''datetime''),
      (''Timestamp'', ''datetime''),
      (''TagsMap'', ''Dict[str, str]''),
      (''MillisecondDateTime'', ''datetime'')]"

text \<open>
  \<open>simple_type_map |= {k.lower(): v ...}\<close>: the lower-cased keys are new keys, so the
  update appends them.
\<close>

definition simple_type_map :: "(string \<times> string) list" where
  "simple_type_map = simple_type_map_base @ map (\<lambda>(k, v). (lower k, v)) simple_type_map_base"

definition ignore_props :: "string set" where
  "ignore_props = {''Tags'', ''tags''}"

text \<open>
  The three nested functions of \<open>clazz_model\<close>. Every value of \<open>simple_type_map\<close> is a
  non-empty string, so a hit of \<open>.get\<close> is truthy. \<open>type_name\<close> reads the variable
  \<open>prefix\<close> of the enclosing call, which is the argument as passed (possibly \<open>None\<close>)
  before line 162 and \<open>prefix or ""\<close> after it: it takes that value as an argument.
\<close>

definition simple_shape :: "shape \<Rightarrow> string option" where
  "simple_shape s =
     (if sh_cls s = StringShape then Some ''str''
      else case map_of simple_type_map (sh_name s) of
             Some simple \<Rightarrow> Some simple
           | None \<Rightarrow> map_of simple_type_map (sh_type_name s))"

definition type_name :: "string option \<Rightarrow> shape \<Rightarrow> string" where
  "type_name prefix s =
     (case simple_shape s of
        Some spl \<Rightarrow> spl
      | None \<Rightarrow> ''Aws'' @ fmt prefix @ sh_name s)"

definition complex_simple_shape :: "ServiceModel \<Rightarrow> shape \<Rightarrow> error + (string \<times> string) option" where
  "complex_simple_shape model s =
     (case sh_cls s of
        StructureShape refs \<Rightarrow>
          (case members model refs of
             Inl e \<Rightarrow> Inl e
           | Inr [(p_name, p_shape)] \<Rightarrow>
               (case simple_shape p_shape of
                  Some p_simple \<Rightarrow> Inr (Some (p_name, p_simple))
                | None \<Rightarrow> Inr None)
           | Inr _ \<Rightarrow> Inr None)
      | _ \<Rightarrow> Inr None)"

section \<open>The model compiler\<close>

text \<open>
  \<open>AwsProperty(name, from_name, type, description)\<close> with the defaults of the class; a
  keyword argument of the source is a record update.
\<close>

definition new_property :: "string \<Rightarrow> from_name \<Rightarrow> string \<Rightarrow> string \<Rightarrow> AwsProperty" where
  "new_property n f t d =
     \<lparr>ap_name = n, ap_from_name = f, ap_type = t, ap_description = d, ap_is_array = False,
      ap_is_complex = False, ap_field_default = None, ap_extractor = None\<rparr>"

text \<open>
  The state of the loop over the members of a structure: the models collected so far
  (\<open>result\<close>), the properties of the class being built (\<open>props\<close>) and the shared set
  \<open>visited\<close>. A run of the compiler either gives no answer within its recursion depth
  (\<open>None\<close>), raises (\<open>Inl\<close>), or returns (\<open>Inr\<close>).
\<close>

type_synonym loop_state = "AwsModel list \<times> AwsProperty list \<times> string set"

type_synonym 'a run = "(error + 'a) option"

text \<open>
  The body of the loop (lines 166 to 223) for the member \<open>name\<close> of shape \<open>prop_shape\<close>.
  \<open>rec s visited\<close> is the recursive call \<open>clazz_model(model, s, visited, prefix)\<close>, and
  \<open>prefix\<close> and \<open>prop_prefix\<close> are the strings the variables hold after lines 162 and 163.
\<close>

definition prop_step ::
  "(shape \<Rightarrow> string set \<Rightarrow> (AwsModel list \<times> string set) run) \<Rightarrow> ServiceModel \<Rightarrow> string \<Rightarrow> string
     \<Rightarrow> string \<Rightarrow> shape \<Rightarrow> loop_state \<Rightarrow> loop_state run" where
  "prop_step rec model prefix prop_prefix name prop_shape st =
     (case st of (result, props, visited) \<Rightarrow>
      let prop = to_snake name in
      if prop \<in> ignore_props then Some (Inr (result, props, visited))
      else case simple_shape prop_shape of
        Some simple \<Rightarrow>
          Some (Inr (result,
            props @ [new_property (prop_prefix @ prop) (Member name) simple (sh_documentation prop_shape)],
            visited))
      | None \<Rightarrow>
         (case sh_cls prop_shape of
            ListShape member_ref \<Rightarrow>
              (case shape_for model member_ref of
                 Inl e \<Rightarrow> Some (Inl e)
               | Inr inner \<Rightarrow>
                  (case simple_shape inner of
                     Some simple \<Rightarrow>
                       Some (Inr (result,
                         props @ [(new_property (prop_prefix @ prop) (Member name) simple
                                     (sh_documentation prop_shape))\<lparr>ap_is_array := True\<rparr>],
                         visited))
                   | None \<Rightarrow>
                      (case complex_simple_shape model inner of
                         Inl e \<Rightarrow> Some (Inl e)
                       | Inr (Some (prop_name, prop_type)) \<Rightarrow>
                           Some (Inr (result,
                             props @ [(new_property (prop_prefix @ prop) (Path [name, prop_name]) prop_type
                                         (sh_documentation prop_shape))
                                      \<lparr>ap_is_array := True,
                                       ap_extractor := Some (''S('' @ quoted name
                                         @ '', default=[]) >> ForallBend(S('' @ quoted prop_name @ ''))'')\<rparr>],
                             visited))
                       | Inr None \<Rightarrow>
                          (case rec inner visited of
                             None \<Rightarrow> None
                           | Some (Inl e) \<Rightarrow> Some (Inl e)
                           | Some (Inr (r, visited')) \<Rightarrow>
                               Some (Inr (result @ r,
                                 props @ [(new_property (prop_prefix @ prop) (Member name)
                                             (type_name (Some prefix) inner) (sh_documentation prop_shape))
                                          \<lparr>ap_is_array := True, ap_is_complex := True\<rparr>],
                                 visited'))))))
          | MapShape key_ref value_ref \<Rightarrow>
              (case shape_for model key_ref of
                 Inl e \<Rightarrow> Some (Inl e)
               | Inr key \<Rightarrow>
                  (case simple_shape key of
                     None \<Rightarrow> Some (Inl (AssertionError (''Key type must be a simple type: '' @ sh_name key)))
                   | Some key_type \<Rightarrow>
                      (case shape_for model value_ref of
                         Inl e \<Rightarrow> Some (Inl e)
                       | Inr val \<Rightarrow>
                          (let value_type = type_name (Some prefix) val in
                           case rec val visited of
                             None \<Rightarrow> None
                           | Some (Inl e) \<Rightarrow> Some (Inl e)
                           | Some (Inr (r, visited')) \<Rightarrow>
                               Some (Inr (result @ r,
                                 props @ [new_property (prop_prefix @ prop) (Member name)
                                            (''Dict['' @ key_type @ '', '' @ value_type @ '']'')
                                            (sh_documentation prop_shape)],
                                 visited'))))))
          | StructureShape refs \<Rightarrow>
              (case complex_simple_shape model prop_shape of
                 Inl e \<Rightarrow> Some (Inl e)
               | Inr (Some (s_prop_name, s_prop_type)) \<Rightarrow>
                   Some (Inr (result,
                     props @ [new_property (prop_prefix @ prop) (Path [name, s_prop_name]) s_prop_type
                                (sh_documentation prop_shape)],
                     visited))
               | Inr None \<Rightarrow>
                  (case rec prop_shape visited of
                     None \<Rightarrow> None
                   | Some (Inl e) \<Rightarrow> Some (Inl e)
                   | Some (Inr (r, visited')) \<Rightarrow>
                       Some (Inr (result @ r,
                         props @ [(new_property (prop_prefix @ prop) (Member name)
                                     (type_name (Some prefix) prop_shape) (sh_documentation prop_shape))
                                  \<lparr>ap_is_complex := True\<rparr>],
                         visited'))))
          | _ \<Rightarrow> Some (Inl (NotImplementedError (''Unsupported shape: <Shape('' @ sh_name prop_shape @ '')>'')))))"

text \<open>The loop \<open>for name, prop_shape in shape.members.items()\<close>.\<close>

fun props_loop ::
  "(shape \<Rightarrow> string set \<Rightarrow> (AwsModel list \<times> string set) run) \<Rightarrow> ServiceModel \<Rightarrow> string \<Rightarrow> string
     \<Rightarrow> (string \<times> shape) list \<Rightarrow> loop_state \<Rightarrow> loop_state run" where
  "props_loop rec model prefix prop_prefix [] st = Some (Inr st)"
| "props_loop rec model prefix prop_prefix ((name, prop_shape) # ms) st =
     (case prop_step rec model prefix prop_prefix name prop_shape st of
        None \<Rightarrow> None
      | Some (Inl e) \<Rightarrow> Some (Inl e)
      | Some (Inr st') \<Rightarrow> props_loop rec model prefix prop_prefix ms st')"

text \<open>
  \<open>clazz_model\<close>. The first argument bounds the depth of the recursion: a call at depth
  \<open>0\<close> gives no answer. The mutable set \<open>visited\<close> is passed in and returned. The
  recursive calls of the source pass \<open>model\<close>, the shape, \<open>visited\<close> and \<open>prefix\<close>, and
  leave the other arguments at their defaults.
\<close>

fun clazz_model ::
  "nat \<Rightarrow> ServiceModel \<Rightarrow> shape \<Rightarrow> string set \<Rightarrow> string option \<Rightarrow> string option \<Rightarrow> string option
     \<Rightarrow> string option \<Rightarrow> bool \<Rightarrow> (string \<times> string \<times> string) option
     \<Rightarrow> (AwsModel list \<times> string set) run" where
  "clazz_model 0 model shape visited prefix prop_prefix clazz_name base_class aggregate_root api_info = None"
| "clazz_model (Suc depth) model shape visited prefix prop_prefix clazz_name base_class aggregate_root api_info =
     (if type_name prefix shape \<in> visited then Some (Inr ([], visited))
      else
        let visited1 = insert (type_name prefix shape) visited;
            prefix1 = or_str prefix [];
            prop_prefix1 = or_str prop_prefix []
        in case sh_cls shape of
             StructureShape refs \<Rightarrow>
               (case members model refs of
                  Inl e \<Rightarrow> Some (Inl e)
                | Inr ms \<Rightarrow>
                   (case props_loop
                           (\<lambda>s v. clazz_model depth model s v (Some prefix1) None None None False None)
                           model prefix1 prop_prefix1 ms ([], [], visited1) of
                      None \<Rightarrow> None
                    | Some (Inl e) \<Rightarrow> Some (Inl e)
                    | Some (Inr (result, props, visited2)) \<Rightarrow>
                        Some (Inr (result @
                          [\<lparr>am_name = or_str clazz_name (type_name (Some prefix1) shape), am_props = props,
                            am_aggregate_root = aggregate_root, am_base_class = base_class,
                            am_api_info = api_info\<rparr>],
                          visited2))))
           | _ \<Rightarrow> Some (Inr ([], visited1)))"

section \<open>The root driver\<close>

text \<open>
  \<open>all_models\<close> reads the table \<open>models\<close> (service name to endpoints, in insertion order)
  and asks boto3 for the service model of each name; both are arguments here. The outer
  loop runs over the services, the inner one over the endpoints of a service; \<open>result\<close>
  and \<open>visited\<close> are shared by all of them. The first argument is the depth given to
  every call of \<open>clazz_model\<close>.
\<close>

fun endpoint_loop ::
  "nat \<Rightarrow> ServiceModel \<Rightarrow> string \<Rightarrow> AwsResotoModel list \<Rightarrow> AwsModel list \<times> string set
     \<Rightarrow> (AwsModel list \<times> string set) run" where
  "endpoint_loop depth sm name [] st = Some (Inr st)"
| "endpoint_loop depth sm name (ep # endpoint) (result, visited) =
     (case shape_for sm (ep_result_shape ep) of
        Inl e \<Rightarrow> Some (Inl e)
      | Inr shape \<Rightarrow>
         (case clazz_model depth sm shape visited (ep_prefix ep) (ep_prop_prefix ep) (ep_name ep)
                 (ep_base ep) True (Some (name, ep_api_action ep, ep_result_property ep)) of
            None \<Rightarrow> None
          | Some (Inl e) \<Rightarrow> Some (Inl e)
          | Some (Inr (r, visited')) \<Rightarrow> endpoint_loop depth sm name endpoint (result @ r, visited')))"

fun service_loop ::
  "nat \<Rightarrow> (string \<Rightarrow> ServiceModel) \<Rightarrow> (string \<times> AwsResotoModel list) list \<Rightarrow> AwsModel list \<times> string set
     \<Rightarrow> (AwsModel list \<times> string set) run" where
  "service_loop depth service_model [] st = Some (Inr st)"
| "service_loop depth service_model ((name, endpoint) # rest) st =
     (case endpoint_loop depth (service_model name) name endpoint st of
        None \<Rightarrow> None
      | Some (Inl e) \<Rightarrow> Some (Inl e)
      | Some (Inr st') \<Rightarrow> service_loop depth service_model rest st')"

definition all_models ::
  "nat \<Rightarrow> (string \<Rightarrow> ServiceModel) \<Rightarrow> (string \<times> AwsResotoModel list) list \<Rightarrow> (AwsModel list) run" where
  "all_models depth service_model models =
     (case service_loop depth service_model models ([], {}) of
        None \<Rightarrow> None
      | Some (Inl e) \<Rightarrow> Some (Inl e)
      | Some (Inr (result, visited)) \<Rightarrow> Some (Inr result))"

section \<open>What a run adds\<close>

text \<open>The type names the complex properties of a class refer to.\<close>

definition complex_types :: "AwsProperty list \<Rightarrow> string set" where
  "complex_types ps = set (map ap_type (filter ap_is_complex ps))"




definition referenced_types :: "AwsModel list \<Rightarrow> string list" where
  "referenced_types ms = concat (map (\<lambda>m. map ap_type (filter ap_is_complex (am_props m))) ms)"






section \<open>A service model to run the compiler on\<close>

text \<open>
  A small service model: scalars, a record \<open>Owner\<close> with one scalar member, a map to
  it, a list of lists, a map keyed by a list, a member called \<open>Tags\<close>, a blob, and a
  record \<open>Widget\<close> that holds a list of itself.
\<close>

definition new_shape :: "string \<Rightarrow> string \<Rightarrow> shape_cls \<Rightarrow> shape" where
  "new_shape n t c = \<lparr>sh_name = n, sh_type_name = t, sh_documentation = [], sh_cls = c\<rparr>"

definition demo :: ServiceModel where
  "demo =
     [new_shape ''String'' ''string'' StringShape,
      new_shape ''Integer'' ''integer'' Shape,
      new_shape ''Blob'' ''blob'' Shape,
      new_shape ''Owner'' ''structure'' (StructureShape [(''Name'', ''String'')]),
      new_shape ''OwnerList'' ''list'' (ListShape ''Owner''),
      new_shape ''OwnerMap'' ''map'' (MapShape ''String'' ''Owner''),
      new_shape ''Holder'' ''structure'' (StructureShape [(''Owners'', ''OwnerMap'')]),
      new_shape ''Row'' ''list'' (ListShape ''String''),
      new_shape ''RowList'' ''list'' (ListShape ''Row''),
      new_shape ''Grid'' ''structure'' (StructureShape [(''Rows'', ''RowList'')]),
      new_shape ''BadMap'' ''map'' (MapShape ''Row'' ''String''),
      new_shape ''Tagged'' ''structure'' (StructureShape [(''Tags'', ''BadMap'')]),
      new_shape ''Keyed'' ''structure'' (StructureShape [(''Index'', ''BadMap'')]),
      new_shape ''Raw'' ''structure''
        (StructureShape [(''Id'', ''String''), (''Data'', ''Blob''), (''Rows'', ''RowList'')]),
      new_shape ''WidgetList'' ''list'' (ListShape ''Widget''),
      new_shape ''Widget'' ''structure''
        (StructureShape [(''Id'', ''String''), (''Size'', ''Integer''), (''Owner'', ''Owner''),
                         (''Parts'', ''WidgetList'')])]"

text \<open>The shape of \<open>demo\<close> with the given name (a shape outside it when there is none).\<close>

definition demo_shape :: "string \<Rightarrow> shape" where
  "demo_shape n = (case shape_for demo n of Inr s \<Rightarrow> s | Inl e \<Rightarrow> new_shape n [] Shape)"

text \<open>An endpoint for a result shape, with the prefix \<open>Demo\<close> and no other override.\<close>

definition root_spec :: "string \<Rightarrow> AwsResotoModel" where
  "root_spec s =
     \<lparr>ep_api_action = ''list'', ep_result_property = ''Items'', ep_result_shape = s,
      ep_prefix = Some ''Demo'', ep_prop_prefix = None, ep_name = None, ep_base = None\<rparr>"






text \<open>A root model with one property, as \<open>all_models\<close> makes them, to render.\<close>

definition demo_root :: AwsModel where
  "demo_root =
     \<lparr>am_name = ''AwsDemoWidget'',
      am_props = [new_property ''size'' (Member ''Size'') ''int'' []],
      am_aggregate_root = True, am_base_class = None,
      am_api_info = Some (''demo'', ''list-widgets'', ''Widgets'')\<rparr>"

section \<open>The table of scalar types\<close>

text \<open>The table after the update with the lower-cased keys, for evaluation.\<close>

lemma simple_type_map_eval [code]:
  "simple_type_map =
     [(''Long'', ''int''), (''Float'', ''float''), (''Double'', ''float''), (''Integer'', ''int''),
      (''Boolean'', ''bool''), (''String'', ''str''), (''DateTime'', ''datetime''),
      (''Timestamp'', ''datetime''), (''TagsMap'', ''Dict[str, str]''),
      (''MillisecondDateTime'', ''datetime''),
      (''long'', ''int''), (''float'', ''float''), (''double'', ''float''), (''integer'', ''int''),
      (''boolean'', ''bool''), (''string'', ''str''), (''datetime'', ''datetime''),
      (''timestamp'', ''datetime''), (''tagsmap'', ''Dict[str, str]''),
      (''milliseconddatetime'', ''datetime'')]"
  by code_simp

section \<open>Resolving shapes\<close>

lemma shape_for_Inr: "shape_for model n = Inr s \<Longrightarrow> s \<in> set model \<and> sh_name s = n"
  by (auto simp: shape_for_def find_Some_iff split: option.splits)

lemma members_Inr:
  "members model refs = Inr ms \<Longrightarrow> snd ` set ms \<subseteq> set model \<and> map fst ms = map fst refs"
proof (induction refs arbitrary: ms)
  case Nil
  then show ?case by simp
next
  case (Cons a refs)
  obtain n r where a: "a = (n, r)" by (cases a)
  from Cons.prems obtain s ms' where s: "shape_for model r = Inr s"
    and ms': "members model refs = Inr ms'" and ms: "ms = (n, s) # ms'"
    by (auto simp: a split: sum.splits)
  from Cons.IH [OF ms'] shape_for_Inr [OF s] show ?case
    by (simp add: ms a)
qed

lemma shape_for_Inl: "shape_for model n = Inl e \<Longrightarrow> e = NoShapeFoundError n"
  by (auto simp: shape_for_def split: option.splits)

lemma members_Inl: "members model refs = Inl e \<Longrightarrow> \<exists>n. e = NoShapeFoundError n"
proof (induction refs)
  case Nil
  then show ?case by simp
next
  case (Cons a refs)
  then show ?case
    by (cases a) (auto split: sum.splits dest: shape_for_Inl)
qed

lemma complex_simple_shape_Inl:
  "complex_simple_shape model s = Inl e \<Longrightarrow> \<exists>n. e = NoShapeFoundError n"
  by (auto simp: complex_simple_shape_def
      split: shape_cls.splits sum.splits list.splits option.splits dest: members_Inl)

text \<open>What one round of the loop does.\<close>

lemma prop_step_cases:
  obtains
    (skip) "\<And>rec. prop_step rec model prefix prop_prefix name prop_shape (result, props, visited)
              = Some (Inr (result, props, visited))"
  | (plain) p where
      "\<And>rec. prop_step rec model prefix prop_prefix name prop_shape (result, props, visited)
         = Some (Inr (result, props @ [p], visited))"
      "\<not> ap_is_complex p"
  | (raise) e where
      "\<And>rec. prop_step rec model prefix prop_prefix name prop_shape (result, props, visited) = Some (Inl e)"
      "\<forall>msg. e = NotImplementedError msg \<longrightarrow> simple_shape prop_shape = None \<and> sh_cls prop_shape \<in> {Shape, StringShape}"
  | (nested) s p where
      "s \<in> set model \<or> s = prop_shape"
      "\<And>rec. prop_step rec model prefix prop_prefix name prop_shape (result, props, visited)
         = (case rec s visited of
              None \<Rightarrow> None
            | Some (Inl e) \<Rightarrow> Some (Inl e)
            | Some (Inr (r, visited')) \<Rightarrow> Some (Inr (result @ r, props @ [p], visited')))"
      "ap_is_complex p \<longrightarrow> ap_type p = type_name (Some prefix) s"
proof (cases "to_snake name \<in> ignore_props")
  case True
  then show ?thesis by (intro skip) (simp add: prop_step_def)
next
  case ign: False
  show ?thesis
  proof (cases "simple_shape prop_shape")
    case (Some simple)
    with ign show ?thesis by (intro plain) (simp add: prop_step_def new_property_def, simp add: new_property_def)
  next
    case ns: None
    show ?thesis
    proof (cases "sh_cls prop_shape")
      case Shape
      with ign ns show ?thesis by (intro raise) (simp add: prop_step_def, simp)
    next
      case StringShape
      with ign ns show ?thesis by (intro raise) (simp add: prop_step_def, simp)
    next
      case (ListShape member_ref)
      show ?thesis
      proof (cases "shape_for model member_ref")
        case (Inl e)
        with ign ns ListShape shape_for_Inl [OF Inl] show ?thesis
          by (intro raise) (simp add: prop_step_def, simp)
      next
        case (Inr inner)
        show ?thesis
        proof (cases "simple_shape inner")
          case (Some simple)
          with ign ns ListShape Inr show ?thesis
            by (intro plain) (simp add: prop_step_def new_property_def, simp add: new_property_def)
        next
          case None
          show ?thesis
          proof (cases "complex_simple_shape model inner")
            case (Inl e)
            with ign ns ListShape Inr None complex_simple_shape_Inl [OF Inl] show ?thesis
              by (intro raise) (simp add: prop_step_def, auto)
          next
            case css: (Inr c)
            show ?thesis
            proof (cases c)
              case no: None
              from shape_for_Inr [OF Inr] have "inner \<in> set model" by simp
              with ign ns ListShape Inr None css no show ?thesis
                by (intro nested [of inner]) (simp, simp add: prop_step_def new_property_def, simp add: new_property_def)
            next
              case (Some a)
              with ign ns ListShape Inr None css show ?thesis
                by (cases a) (rule plain, simp add: prop_step_def new_property_def, simp add: new_property_def)
            qed
          qed
        qed
      qed
    next
      case (MapShape key_ref value_ref)
      show ?thesis
      proof (cases "shape_for model key_ref")
        case (Inl e)
        with ign ns MapShape shape_for_Inl [OF Inl] show ?thesis
          by (intro raise) (simp add: prop_step_def, simp)
      next
        case key: (Inr key)
        show ?thesis
        proof (cases "simple_shape key")
          case None
          with ign ns MapShape key show ?thesis by (intro raise) (simp add: prop_step_def, simp)
        next
          case (Some key_type)
          show ?thesis
          proof (cases "shape_for model value_ref")
            case (Inl e)
            with ign ns MapShape key Some shape_for_Inl [OF Inl] show ?thesis
              by (intro raise) (simp add: prop_step_def, simp)
          next
            case (Inr val)
            from shape_for_Inr [OF Inr] have "val \<in> set model" by simp
            with ign ns MapShape key Some Inr show ?thesis
              by (intro nested [of val]) (simp, simp add: prop_step_def new_property_def, simp add: new_property_def)
          qed
        qed
      qed
    next
      case (StructureShape refs)
      show ?thesis
      proof (cases "complex_simple_shape model prop_shape")
        case (Inl e)
        with ign ns StructureShape complex_simple_shape_Inl [OF Inl] show ?thesis
          by (intro raise) (simp add: prop_step_def, auto)
      next
        case css: (Inr c)
        show ?thesis
        proof (cases c)
          case None
          with ign ns StructureShape css show ?thesis
            by (intro nested [of prop_shape]) (simp, simp add: prop_step_def new_property_def, simp add: new_property_def)
        next
          case (Some a)
          with ign ns StructureShape css show ?thesis
            by (cases a) (rule plain, simp add: prop_step_def new_property_def, simp add: new_property_def)
        qed
      qed
    qed
  qed
qed

section \<open>Every run ends\<close>

lemma prop_step_total:
  assumes R: "\<And>s. s \<in> set model \<or> s = prop_shape \<Longrightarrow>
                \<exists>x. rec s visited = Some x \<and> (\<forall>r v'. x = Inr (r, v') \<longrightarrow> visited \<subseteq> v')"
  shows "\<exists>x. prop_step rec model prefix prop_prefix name prop_shape (result, props, visited) = Some x
           \<and> (\<forall>result' props' visited'. x = Inr (result', props', visited') \<longrightarrow> visited \<subseteq> visited')"
proof (cases rule: prop_step_cases [of model prefix prop_prefix name prop_shape result props visited])
  case skip
  then show ?thesis by simp
next
  case (plain p)
  then show ?thesis by simp
next
  case (raise e)
  then show ?thesis by simp
next
  case (nested s p)
  from R [OF nested(1)] obtain x where x: "rec s visited = Some x"
    and sub: "\<forall>r v'. x = Inr (r, v') \<longrightarrow> visited \<subseteq> v'" by blast
  show ?thesis
  proof (cases x)
    case (Inl e)
    with x nested(2) [of rec] show ?thesis by simp
  next
    case (Inr a)
    with x sub nested(2) [of rec] show ?thesis by (cases a) auto
  qed
qed

lemma props_loop_total:
  assumes "snd ` set ms \<subseteq> set model"
    and R: "\<And>s v. s \<in> set model \<Longrightarrow> visited \<subseteq> v \<Longrightarrow>
              \<exists>x. rec s v = Some x \<and> (\<forall>r v'. x = Inr (r, v') \<longrightarrow> v \<subseteq> v')"
  shows "\<exists>x. props_loop rec model prefix prop_prefix ms (result, props, visited) = Some x
           \<and> (\<forall>result' props' visited'. x = Inr (result', props', visited') \<longrightarrow> visited \<subseteq> visited')"
  using assms
proof (induction ms arbitrary: result props visited)
  case Nil
  then show ?case by simp
next
  case (Cons m ms)
  obtain name prop_shape where m: "m = (name, prop_shape)" by (cases m)
  from Cons.prems(1) have in_model: "prop_shape \<in> set model" and rest: "snd ` set ms \<subseteq> set model"
    by (auto simp: m)
  have "\<exists>x. prop_step rec model prefix prop_prefix name prop_shape (result, props, visited) = Some x
           \<and> (\<forall>result' props' visited'. x = Inr (result', props', visited') \<longrightarrow> visited \<subseteq> visited')"
    by (rule prop_step_total) (use in_model Cons.prems(2) in auto)
  then obtain x where x: "prop_step rec model prefix prop_prefix name prop_shape (result, props, visited) = Some x"
    and sub: "\<forall>result' props' visited'. x = Inr (result', props', visited') \<longrightarrow> visited \<subseteq> visited'"
    by blast
  show ?case
  proof (cases x)
    case (Inl e)
    with x show ?thesis by (simp add: m)
  next
    case (Inr st')
    obtain result1 props1 visited1 where st': "st' = (result1, props1, visited1)" by (cases st')
    from sub Inr st' have v1: "visited \<subseteq> visited1" by simp
    have "\<exists>y. props_loop rec model prefix prop_prefix ms (result1, props1, visited1) = Some y
           \<and> (\<forall>result' props' visited'. y = Inr (result', props', visited') \<longrightarrow> visited1 \<subseteq> visited')"
    proof (rule Cons.IH [OF rest])
      fix s v
      assume "s \<in> set model" "visited1 \<subseteq> v"
      with v1 Cons.prems(2) [of s v]
      show "\<exists>x. rec s v = Some x \<and> (\<forall>r v'. x = Inr (r, v') \<longrightarrow> v \<subseteq> v')" by auto
    qed
    then obtain y where y: "props_loop rec model prefix prop_prefix ms (result1, props1, visited1) = Some y"
      and sub': "\<forall>result' props' visited'. y = Inr (result', props', visited') \<longrightarrow> visited1 \<subseteq> visited'"
      by blast
    from x Inr st' y
    have "props_loop rec model prefix prop_prefix (m # ms) (result, props, visited) = Some y"
      by (simp add: m)
    moreover from sub' v1
    have "\<forall>result' props' visited'. y = Inr (result', props', visited') \<longrightarrow> visited \<subseteq> visited'"
      by blast
    ultimately show ?thesis by blast
  qed
qed

text \<open>
  The names a run with prefix \<open>p\<close> can add to \<open>visited\<close> are the type names of the shapes
  of the model, a finite set; a nested call whose depth exceeds the number of those not
  yet visited returns or raises.
\<close>

lemma clazz_model_nested_total:
  "shape \<in> set model \<Longrightarrow> card (type_name (Some p) ` set model - visited) < depth \<Longrightarrow>
     \<exists>x. clazz_model depth model shape visited (Some p) prop_prefix clazz_name base_class
             aggregate_root api_info = Some x
       \<and> (\<forall>r v'. x = Inr (r, v') \<longrightarrow> visited \<subseteq> v')"
proof (induction depth arbitrary: shape visited prop_prefix clazz_name base_class aggregate_root api_info)
  case 0
  then show ?case by simp
next
  case (Suc depth)
  let ?U = "type_name (Some p) ` set model"
  let ?tn = "type_name (Some p) shape"
  show ?case
  proof (cases "?tn \<in> visited")
    case True
    then show ?thesis by simp
  next
    case False
    have p1: "or_str (Some p) [] = p" by simp
    from Suc.prems(1) have "?tn \<in> ?U - visited" using False by simp
    then have "card (?U - insert ?tn visited) < card (?U - visited)"
      by (metis Diff_insert card_Diff1_less finite_Diff finite_imageI finite_set)
    with Suc.prems(2) have small: "card (?U - insert ?tn visited) < depth" by simp
    show ?thesis
    proof (cases "sh_cls shape")
      case (StructureShape refs)
      show ?thesis
      proof (cases "members model refs")
        case (Inl e)
        with False StructureShape show ?thesis by simp
      next
        case (Inr ms)
        let ?rec = "\<lambda>s v. clazz_model depth model s v (Some p) None None None False None"
        have "\<exists>x. props_loop ?rec model p (or_str prop_prefix []) ms ([], [], insert ?tn visited) = Some x
           \<and> (\<forall>result' props' visited'. x = Inr (result', props', visited') \<longrightarrow> insert ?tn visited \<subseteq> visited')"
        proof (rule props_loop_total)
          show "snd ` set ms \<subseteq> set model" using members_Inr [OF Inr] by simp
        next
          fix s v
          assume s: "s \<in> set model" and v: "insert ?tn visited \<subseteq> v"
          have "card (?U - v) \<le> card (?U - insert ?tn visited)"
            by (rule card_mono) (use v in auto)
          with small have "card (?U - v) < depth" by simp
          from Suc.IH [OF s this]
          show "\<exists>x. ?rec s v = Some x \<and> (\<forall>r v'. x = Inr (r, v') \<longrightarrow> v \<subseteq> v')" .
        qed
        then obtain x where x: "props_loop ?rec model p (or_str prop_prefix []) ms ([], [], insert ?tn visited) = Some x"
          and sub: "\<forall>result' props' visited'. x = Inr (result', props', visited') \<longrightarrow> insert ?tn visited \<subseteq> visited'"
          by blast
        show ?thesis
        proof (cases x)
          case (Inl e)
          with x False StructureShape Inr show ?thesis by (simp del: or_str.simps add: p1)
        next
          case st: (Inr st)
          obtain result props visited2 where "st = (result, props, visited2)" by (cases st)
          with x st sub False StructureShape Inr show ?thesis
            by (auto simp del: or_str.simps simp add: p1)
        qed
      qed
    qed (use False in auto)
  qed
qed

lemma clazz_model_total:
  "\<exists>y. clazz_model (length model + 2 + k) model shape visited prefix prop_prefix clazz_name base_class
          aggregate_root api_info = Some y"
proof -
  let ?tn = "type_name prefix shape"
  let ?p = "or_str prefix []"
  let ?depth = "length model + 1 + k"
  let ?rec = "\<lambda>s v. clazz_model ?depth model s v (Some ?p) None None None False None"
  have fuel: "length model + 2 + k = Suc ?depth" by simp
  show ?thesis
  proof (cases "?tn \<in> visited")
    case True
    then show ?thesis unfolding fuel by simp
  next
    case False
    show ?thesis
    proof (cases "sh_cls shape")
      case (StructureShape refs)
      show ?thesis
      proof (cases "members model refs")
        case (Inl e)
        with False StructureShape show ?thesis unfolding fuel by simp
      next
        case (Inr ms)
        have "\<exists>x. props_loop ?rec model ?p (or_str prop_prefix []) ms ([], [], insert ?tn visited) = Some x
           \<and> (\<forall>result' props' visited'. x = Inr (result', props', visited') \<longrightarrow> insert ?tn visited \<subseteq> visited')"
        proof (rule props_loop_total)
          show "snd ` set ms \<subseteq> set model" using members_Inr [OF Inr] by simp
        next
          fix s v
          assume s: "s \<in> set model"
          have "card (type_name (Some ?p) ` set model - v) \<le> card (type_name (Some ?p) ` set model)"
            by (rule card_mono) auto
          also have "\<dots> \<le> card (set model)" by (rule card_image_le) simp
          also have "\<dots> \<le> length model" by (rule card_length)
          finally have "card (type_name (Some ?p) ` set model - v) < ?depth" by simp
          from clazz_model_nested_total [OF s this]
          show "\<exists>x. ?rec s v = Some x \<and> (\<forall>r v'. x = Inr (r, v') \<longrightarrow> v \<subseteq> v')" .
        qed
        then obtain x where x: "props_loop ?rec model ?p (or_str prop_prefix []) ms ([], [], insert ?tn visited) = Some x"
          by blast
        show ?thesis
        proof (cases x)
          case (Inl e)
          with x False StructureShape Inr show ?thesis unfolding fuel by (simp del: or_str.simps)
        next
          case st: (Inr st)
          obtain result props visited2 where "st = (result, props, visited2)" by (cases st)
          with x st False StructureShape Inr show ?thesis unfolding fuel
            by (simp del: or_str.simps)
        qed
      qed
    qed (use False in \<open>auto simp: fuel\<close>)
  qed
qed

section \<open>The answer does not depend on the depth\<close>

lemma prop_step_mono:
  assumes le: "\<And>s v y. rec s v = Some y \<Longrightarrow> rec' s v = Some y"
    and run: "prop_step rec model prefix prop_prefix name prop_shape (result, props, visited) = Some x"
  shows "prop_step rec' model prefix prop_prefix name prop_shape (result, props, visited) = Some x"
proof (cases rule: prop_step_cases [of model prefix prop_prefix name prop_shape result props visited])
  case skip
  with run show ?thesis by simp
next
  case (plain p)
  with run show ?thesis by simp
next
  case (raise e)
  with run show ?thesis by simp
next
  case (nested s p)
  from run nested(2) [of rec] obtain y where y: "rec s visited = Some y"
    by (cases "rec s visited") auto
  from le [OF y] y run nested(2) [of rec] nested(2) [of rec'] show ?thesis by simp
qed

lemma props_loop_mono:
  assumes le: "\<And>s v y. rec s v = Some y \<Longrightarrow> rec' s v = Some y"
  shows "props_loop rec model prefix prop_prefix ms st = Some x \<Longrightarrow>
         props_loop rec' model prefix prop_prefix ms st = Some x"
proof (induction ms arbitrary: st)
  case Nil
  then show ?case by simp
next
  case (Cons m ms)
  obtain name prop_shape where m: "m = (name, prop_shape)" by (cases m)
  obtain result props visited where st: "st = (result, props, visited)" by (cases st)
  from Cons.prems obtain y where y: "prop_step rec model prefix prop_prefix name prop_shape st = Some y"
    by (cases "prop_step rec model prefix prop_prefix name prop_shape st") (auto simp: m)
  have y': "prop_step rec' model prefix prop_prefix name prop_shape st = Some y"
    unfolding st by (rule prop_step_mono [of rec rec']) (use le y st in auto)
  show ?case
  proof (cases y)
    case (Inl e)
    with Cons.prems y y' show ?thesis by (auto simp: m)
  next
    case (Inr st')
    with Cons.prems y have "props_loop rec model prefix prop_prefix ms st' = Some x" by (simp add: m)
    from Cons.IH [OF this] y' Inr show ?thesis by (simp add: m)
  qed
qed

lemma clazz_model_Suc:
  "clazz_model depth model shape visited prefix prop_prefix clazz_name base_class aggregate_root api_info
     = Some x \<Longrightarrow>
   clazz_model (Suc depth) model shape visited prefix prop_prefix clazz_name base_class aggregate_root
     api_info = Some x"
proof (induction depth arbitrary: shape visited prefix prop_prefix clazz_name base_class aggregate_root
    api_info x)
  case 0
  then show ?case by simp
next
  case (Suc depth)
  let ?tn = "type_name prefix shape"
  let ?rec = "\<lambda>d s v. clazz_model d model s v (Some (or_str prefix [])) None None None False None"
  show ?case
  proof (cases "?tn \<in> visited")
    case True
    with Suc.prems show ?thesis by simp
  next
    case False
    show ?thesis
    proof (cases "sh_cls shape")
      case (StructureShape refs)
      show ?thesis
      proof (cases "members model refs")
        case (Inl e)
        with False StructureShape Suc.prems show ?thesis by simp
      next
        case (Inr ms)
        from Suc.prems False StructureShape Inr obtain y where
          y: "props_loop (?rec depth) model (or_str prefix []) (or_str prop_prefix []) ms
                ([], [], insert ?tn visited) = Some y"
          by (cases "props_loop (?rec depth) model (or_str prefix []) (or_str prop_prefix []) ms
                ([], [], insert ?tn visited)") (auto simp del: or_str.simps)
        have y': "props_loop (?rec (Suc depth)) model (or_str prefix []) (or_str prop_prefix []) ms
                ([], [], insert ?tn visited) = Some y"
          by (rule props_loop_mono [OF _ y]) (rule Suc.IH)
        have unfold: "\<And>d. clazz_model (Suc d) model shape visited prefix prop_prefix clazz_name base_class
              aggregate_root api_info =
            (case props_loop (?rec d) model (or_str prefix []) (or_str prop_prefix []) ms
                ([], [], insert ?tn visited) of
               None \<Rightarrow> None
             | Some (Inl e) \<Rightarrow> Some (Inl e)
             | Some (Inr (result, props, visited2)) \<Rightarrow>
                 Some (Inr (result @
                   [\<lparr>am_name = or_str clazz_name (type_name (Some (or_str prefix [])) shape),
                     am_props = props, am_aggregate_root = aggregate_root, am_base_class = base_class,
                     am_api_info = api_info\<rparr>], visited2)))"
          using False StructureShape Inr by (simp add: Let_def del: or_str.simps)
        from Suc.prems show ?thesis
          unfolding unfold [of depth] unfold [of "Suc depth"] y y' .
      qed
    qed (use False Suc.prems in auto)
  qed
qed

lemma clazz_model_mono:
  assumes "depth \<le> depth'"
    and "clazz_model depth model shape visited prefix prop_prefix clazz_name base_class aggregate_root
           api_info = Some x"
  shows "clazz_model depth' model shape visited prefix prop_prefix clazz_name base_class aggregate_root
           api_info = Some x"
  using assms
proof (induction depth' rule: dec_induct)
  case base
  then show ?case .
next
  case (step n)
  then show ?case by (intro clazz_model_Suc)
qed

lemma endpoint_loop_mono:
  assumes "depth \<le> depth'"
  shows "endpoint_loop depth sm name endpoint st = Some x \<Longrightarrow>
         endpoint_loop depth' sm name endpoint st = Some x"
proof (induction endpoint arbitrary: st)
  case Nil
  then show ?case by simp
next
  case (Cons ep endpoint)
  obtain result visited where st: "st = (result, visited)" by (cases st)
  show ?case
  proof (cases "shape_for sm (ep_result_shape ep)")
    case (Inl e)
    with Cons.prems show ?thesis by (simp add: st)
  next
    case (Inr shape)
    let ?call = "\<lambda>d. clazz_model d sm shape visited (ep_prefix ep) (ep_prop_prefix ep) (ep_name ep)
                 (ep_base ep) True (Some (name, ep_api_action ep, ep_result_property ep))"
    from Cons.prems Inr obtain y where y: "?call depth = Some y"
      by (cases "?call depth") (auto simp: st)
    from clazz_model_mono [OF assms y] have y': "?call depth' = Some y" .
    show ?thesis
    proof (cases y)
      case (Inl e)
      with Cons.prems Inr y y' show ?thesis by (auto simp: st)
    next
      case r: (Inr a)
      obtain r visited' where a: "a = (r, visited')" by (cases a)
      from Cons.prems Inr y r a
      have "endpoint_loop depth sm name endpoint (result @ r, visited') = Some x" by (simp add: st)
      from Cons.IH [OF this] Inr y' r a show ?thesis by (simp add: st)
    qed
  qed
qed

lemma service_loop_mono:
  assumes "depth \<le> depth'"
  shows "service_loop depth service_model models st = Some x \<Longrightarrow>
         service_loop depth' service_model models st = Some x"
proof (induction models arbitrary: st)
  case Nil
  then show ?case by simp
next
  case (Cons m models)
  obtain name endpoint where m: "m = (name, endpoint)" by (cases m)
  from Cons.prems obtain y where y: "endpoint_loop depth (service_model name) name endpoint st = Some y"
    by (cases "endpoint_loop depth (service_model name) name endpoint st") (auto simp: m)
  from endpoint_loop_mono [OF assms y]
  have y': "endpoint_loop depth' (service_model name) name endpoint st = Some y" .
  show ?case
  proof (cases y)
    case (Inl e)
    with Cons.prems y y' show ?thesis by (auto simp: m)
  next
    case (Inr st')
    with Cons.prems y have "service_loop depth service_model models st' = Some x" by (simp add: m)
    from Cons.IH [OF this] y' Inr show ?thesis by (simp add: m)
  qed
qed

lemma all_models_mono:
  assumes "depth \<le> depth'" and "all_models depth service_model models = Some x"
  shows "all_models depth' service_model models = Some x"
proof -
  from assms(2) obtain y where y: "service_loop depth service_model models ([], {}) = Some y"
    by (cases "service_loop depth service_model models ([], {})") (auto simp: all_models_def)
  from service_loop_mono [OF assms(1) y] y assms(2) show ?thesis
    by (simp add: all_models_def)
qed


lemma clazz_model_total_ge:
  assumes "length model + 2 \<le> depth"
  shows "\<exists>y. clazz_model depth model shape visited prefix prop_prefix clazz_name base_class
          aggregate_root api_info = Some y"
proof -
  from assms have "depth = length model + 2 + (depth - (length model + 2))" by simp
  then show ?thesis using clazz_model_total by metis
qed

lemma endpoint_loop_total:
  assumes "length sm + 2 \<le> depth"
  shows "\<exists>y. endpoint_loop depth sm name endpoint st = Some y"
proof (induction endpoint arbitrary: st)
  case Nil
  show ?case by simp
next
  case (Cons ep endpoint)
  obtain result visited where st: "st = (result, visited)" by (cases st)
  show ?case
  proof (cases "shape_for sm (ep_result_shape ep)")
    case (Inl e)
    then show ?thesis by (simp add: st)
  next
    case (Inr shape)
    from clazz_model_total_ge [OF assms] obtain y where
      y: "clazz_model depth sm shape visited (ep_prefix ep) (ep_prop_prefix ep) (ep_name ep)
                 (ep_base ep) True (Some (name, ep_api_action ep, ep_result_property ep)) = Some y"
      by blast
    show ?thesis
    proof (cases y)
      case (Inl e)
      with Inr y show ?thesis by (simp add: st)
    next
      case r: (Inr a)
      obtain r visited' where a: "a = (r, visited')" by (cases a)
      from Cons.IH [of "(result @ r, visited')"] Inr y r a show ?thesis by (simp add: st)
    qed
  qed
qed

lemma service_loop_total:
  assumes "\<And>name endpoint. (name, endpoint) \<in> set models \<Longrightarrow> length (service_model name) + 2 \<le> depth"
  shows "\<exists>y. service_loop depth service_model models st = Some y"
  using assms
proof (induction models arbitrary: st)
  case Nil
  show ?case by simp
next
  case (Cons m models)
  obtain name endpoint where m: "m = (name, endpoint)" by (cases m)
  from Cons.prems [of name endpoint] have "length (service_model name) + 2 \<le> depth" by (simp add: m)
  from endpoint_loop_total [OF this] obtain y where
    y: "endpoint_loop depth (service_model name) name endpoint st = Some y" by blast
  show ?case
  proof (cases y)
    case (Inl e)
    with y show ?thesis by (simp add: m)
  next
    case (Inr st')
    have "\<exists>z. service_loop depth service_model models st' = Some z"
      by (rule Cons.IH) (use Cons.prems in auto)
    with y Inr show ?thesis by (simp add: m)
  qed
qed

lemma all_models_total: "\<exists>depth y. all_models depth service_model models = Some y"
proof -
  let ?depth = "sum_list (map (\<lambda>(name, endpoint). length (service_model name)) models) + 2"
  have "\<exists>y. service_loop ?depth service_model models ([], {}) = Some y"
  proof (rule service_loop_total)
    fix name endpoint
    assume "(name, endpoint) \<in> set models"
    then have "length (service_model name) \<in> set (map (\<lambda>(name, endpoint). length (service_model name)) models)"
      by force
    then have "length (service_model name) \<le> sum_list (map (\<lambda>(name, endpoint). length (service_model name)) models)"
      by (auto intro!: member_le_sum_list)
    then show "length (service_model name) + 2 \<le> ?depth" by simp
  qed
  then obtain y where y: "service_loop ?depth service_model models ([], {}) = Some y" by blast
  have "\<exists>z. all_models ?depth service_model models = Some z"
  proof (cases y)
    case (Inl e)
    with y show ?thesis by (simp add: all_models_def)
  next
    case (Inr a)
    with y show ?thesis by (cases a) (simp add: all_models_def)
  qed
  then show ?thesis by blast
qed

section \<open>The loop over the members\<close>



section \<open>Names and references\<close>

lemma complex_types_append [simp]:
  "complex_types (ps @ qs) = complex_types ps \<union> complex_types qs"
  by (simp add: complex_types_def)

lemma complex_types_Nil [simp]: "complex_types [] = {}"
  by (simp add: complex_types_def)











lemma set_referenced_types:
  "set (referenced_types ms) = (\<Union>m\<in>set ms. complex_types (am_props m))"
  by (simp add: referenced_types_def complex_types_def)



section \<open>Nested models\<close>








section \<open>Unsupported shapes\<close>





section \<open>Branches of the loop body\<close>

lemma complex_simple_shape_single:
  assumes "sh_cls s = StructureShape [(p_name, r)]" and "shape_for model r = Inr p_shape"
  shows "complex_simple_shape model s =
           Inr (case simple_shape p_shape of Some p_simple \<Rightarrow> Some (p_name, p_simple) | None \<Rightarrow> None)"
  using assms by (simp add: complex_simple_shape_def split: option.splits)

lemma prop_step_structure_collapse:
  assumes "to_snake name \<notin> ignore_props" and "simple_shape prop_shape = None"
    and "sh_cls prop_shape = StructureShape [(p_name, r)]" and "shape_for model r = Inr p_shape"
    and "simple_shape p_shape = Some p_simple"
  shows "prop_step rec model prefix prop_prefix name prop_shape (result, props, visited) =
           Some (Inr (result,
             props @ [new_property (prop_prefix @ to_snake name) (Path [name, p_name]) p_simple
                        (sh_documentation prop_shape)],
             visited))"
  using assms complex_simple_shape_single [OF assms(3,4)]
  by (simp add: prop_step_def)

lemma prop_step_list_collapse:
  assumes "to_snake name \<notin> ignore_props" and "simple_shape prop_shape = None"
    and "sh_cls prop_shape = ListShape member_ref" and "shape_for model member_ref = Inr inner"
    and "simple_shape inner = None"
    and "sh_cls inner = StructureShape [(p_name, r)]" and "shape_for model r = Inr p_shape"
    and "simple_shape p_shape = Some p_simple"
  shows "prop_step rec model prefix prop_prefix name prop_shape (result, props, visited) =
           Some (Inr (result,
             props @ [(new_property (prop_prefix @ to_snake name) (Path [name, p_name]) p_simple
                         (sh_documentation prop_shape))
                      \<lparr>ap_is_array := True,
                       ap_extractor := Some (''S('' @ quoted name
                         @ '', default=[]) >> ForallBend(S('' @ quoted p_name @ ''))'')\<rparr>],
             visited))"
  using assms complex_simple_shape_single [OF assms(6,7)]
  by (simp add: prop_step_def)

lemma prop_step_map:
  assumes "to_snake name \<notin> ignore_props" and "simple_shape prop_shape = None"
    and "sh_cls prop_shape = MapShape key_ref value_ref" and "shape_for model key_ref = Inr key"
  shows "simple_shape key = None \<Longrightarrow>
           prop_step rec model prefix prop_prefix name prop_shape (result, props, visited) =
             Some (Inl (AssertionError (''Key type must be a simple type: '' @ sh_name key)))"
    and "simple_shape key = Some key_type \<Longrightarrow> shape_for model value_ref = Inr val \<Longrightarrow>
           prop_step rec model prefix prop_prefix name prop_shape (result, props, visited) =
             (case rec val visited of
                None \<Rightarrow> None
              | Some (Inl e) \<Rightarrow> Some (Inl e)
              | Some (Inr (r, visited')) \<Rightarrow>
                  Some (Inr (result @ r,
                    props @ [new_property (prop_prefix @ to_snake name) (Member name)
                               (''Dict['' @ key_type @ '', '' @ type_name (Some prefix) val @ '']'')
                               (sh_documentation prop_shape)],
                    visited')))"
  using assms by (simp_all add: prop_step_def)

section \<open>Blocks of the output\<close>





section \<open>Blocks of the collection\<close>





section \<open>Name casing\<close>

lemmas char_class_defs =
  is_upper_def is_lower_def is_digit_def upper_chars_def lower_chars_def digit_chars_def
  lower_def lower_char_def

text \<open>
  C4: the name transformer maps \<open>DeleteOnTermination\<close> to \<open>delete_on_termination\<close>,
  \<open>VPCId\<close> to \<open>vpc_id\<close>, \<open>IAMInstanceProfile\<close> to \<open>iam_instance_profile\<close> and \<open>ID\<close>
  to \<open>id\<close>.
\<close>

theorem to_snake_cases:
  "to_snake ''DeleteOnTermination'' = ''delete_on_termination''
   \<and> to_snake ''VPCId'' = ''vpc_id''
   \<and> to_snake ''IAMInstanceProfile'' = ''iam_instance_profile''
   \<and> to_snake ''ID'' = ''id''"
  by (simp add: to_snake_def char_class_defs)

section \<open>Termination\<close>

text \<open>
  C8: on every service model (a finite table of shapes, which may refer to themselves
  through a list or a map) \<open>clazz_model\<close> ends, whatever the shape, the set \<open>visited\<close>
  and the other arguments: the call returns or raises at every depth of at least two
  more than the number of shapes, and its answer is the same at all of them. Each nested
  call that goes on adds the type name of a shape of the model to \<open>visited\<close>, and there
  are no more such names than shapes.
\<close>

theorem clazz_model_terminates:
  "\<exists>y. \<forall>depth. length model + 2 \<le> depth \<longrightarrow>
         clazz_model depth model shape visited prefix prop_prefix clazz_name base_class
           aggregate_root api_info = Some y"
proof -
  from clazz_model_total [of model 0 shape visited prefix prop_prefix clazz_name base_class
      aggregate_root api_info]
  obtain y where y: "clazz_model (length model + 2) model shape visited prefix prop_prefix clazz_name
      base_class aggregate_root api_info = Some y"
    by auto
  have "\<forall>depth. length model + 2 \<le> depth \<longrightarrow>
         clazz_model depth model shape visited prefix prop_prefix clazz_name base_class
           aggregate_root api_info = Some y"
    using clazz_model_mono [OF _ y] by blast
  then show ?thesis ..
qed

theorem clazz_model_terminates_witness:
  "sh_cls (demo_shape ''Widget'')
     = StructureShape [(''Id'', ''String''), (''Size'', ''Integer''), (''Owner'', ''Owner''),
                       (''Parts'', ''WidgetList'')]
   \<and> sh_cls (demo_shape ''WidgetList'') = ListShape ''Widget''
   \<and> length demo + 2 \<le> 18
   \<and> (\<exists>y. clazz_model 18 demo (demo_shape ''Widget'') {} (Some ''Demo'') None None None True None
            = Some y)"
proof -
  have 1: "sh_cls (demo_shape ''Widget'')
     = StructureShape [(''Id'', ''String''), (''Size'', ''Integer''), (''Owner'', ''Owner''),
                       (''Parts'', ''WidgetList'')]"
    by code_simp
  have 2: "sh_cls (demo_shape ''WidgetList'') = ListShape ''Widget''" by code_simp
  have 3: "length demo + 2 \<le> 18" by (simp add: demo_def)
  from clazz_model_terminates [of demo "demo_shape ''Widget''" "{}" "Some ''Demo''" None None None
      True None] 3
  have "\<exists>y. clazz_model 18 demo (demo_shape ''Widget'') {} (Some ''Demo'') None None None True None
            = Some y"
    by blast
  with 1 2 3 show ?thesis by blast
qed

section \<open>Determinism\<close>

text \<open>
  C9: a run of the compiler over a schema and a list of root specifications has exactly
  one outcome, the ordered list of models or the error raised: \<open>all_models\<close> starts from
  an empty \<open>visited\<close> and an empty \<open>result\<close>, reads nothing but its two inputs, and gives
  the same answer at every depth at which it gives one.
\<close>

theorem all_models_deterministic:
  "\<exists>!outcome. \<exists>depth. all_models depth service_model models = Some outcome"
proof -
  from all_models_total obtain d y where y: "all_models d service_model models = Some y" by blast
  show ?thesis
  proof (rule ex1I [of _ y])
    show "\<exists>depth. all_models depth service_model models = Some y" using y by blast
  next
    fix z
    assume "\<exists>depth. all_models depth service_model models = Some z"
    then obtain d' where z: "all_models d' service_model models = Some z" by blast
    from all_models_mono [OF max.cobounded1 y, of d']
    have "all_models (max d d') service_model models = Some y" .
    moreover from all_models_mono [OF max.cobounded2 z, of d]
    have "all_models (max d d') service_model models = Some z" .
    ultimately show "z = y" by simp
  qed
qed

section \<open>Shapes that are not structures\<close>

text \<open>
  C10: called on a shape that is not a structure, \<open>clazz_model\<close> returns the empty list
  and no error, and \<open>visited\<close> holds the type name of the shape afterwards; a later call
  on any shape with the same type name, a structure included, finds the name in
  \<open>visited\<close> and returns the empty list as well.
\<close>

theorem clazz_model_not_structure:
  assumes "\<not> is_structure shape"
  shows "clazz_model (Suc depth) model shape visited prefix prop_prefix clazz_name base_class
           aggregate_root api_info
         = Some (Inr ([], insert (type_name prefix shape) visited))
       \<and> (insert (type_name prefix shape) visited \<subseteq> visited'
            \<and> type_name prefix' shape' = type_name prefix shape
          \<longrightarrow> clazz_model (Suc depth') model' shape' visited' prefix' prop_prefix' clazz_name'
                base_class' aggregate_root' api_info'
              = Some (Inr ([], visited')))"
proof
  from assms
  show "clazz_model (Suc depth) model shape visited prefix prop_prefix clazz_name base_class
           aggregate_root api_info
         = Some (Inr ([], insert (type_name prefix shape) visited))"
    by (cases "sh_cls shape") (auto simp: is_structure_def insert_absorb)
next
  show "insert (type_name prefix shape) visited \<subseteq> visited'
            \<and> type_name prefix' shape' = type_name prefix shape
          \<longrightarrow> clazz_model (Suc depth') model' shape' visited' prefix' prop_prefix' clazz_name'
                base_class' aggregate_root' api_info'
              = Some (Inr ([], visited'))"
    by auto
qed

theorem clazz_model_not_structure_witness:
  "\<not> is_structure (demo_shape ''Row'')
   \<and> clazz_model (Suc 0) demo (demo_shape ''Row'') {} (Some ''Demo'') None None None True None
       = Some (Inr ([], {''AwsDemoRow''}))
   \<and> is_structure (new_shape ''Row'' ''structure'' (StructureShape [(''Id'', ''String'')]))
   \<and> clazz_model (Suc 0) demo (new_shape ''Row'' ''structure'' (StructureShape [(''Id'', ''String'')]))
         {''AwsDemoRow''} (Some ''Demo'') None None None True None
       = Some (Inr ([], {''AwsDemoRow''}))"
proof -
  have h: "\<not> is_structure (demo_shape ''Row'')" by code_simp
  have tn: "type_name (Some ''Demo'') (demo_shape ''Row'') = ''AwsDemoRow''" by code_simp
  have tn': "type_name (Some ''Demo'') (new_shape ''Row'' ''structure'' (StructureShape [(''Id'', ''String'')]))
               = ''AwsDemoRow''" by code_simp
  have s: "is_structure (new_shape ''Row'' ''structure'' (StructureShape [(''Id'', ''String'')]))"
    by code_simp
  from clazz_model_not_structure [OF h, of 0 demo "{}" "Some ''Demo''" None None None True None
      "{''AwsDemoRow''}" "Some ''Demo''"
      "new_shape ''Row'' ''structure'' (StructureShape [(''Id'', ''String'')])" 0 demo None None None True None]
  show ?thesis using h s by (simp add: tn tn' del: clazz_model.simps)
qed

section \<open>Unique names\<close>




section \<open>Discovery order\<close>



section \<open>Unsupported shapes raise\<close>



section \<open>Collapsing a record with one scalar member\<close>

text \<open>
  C3, as amended: let a record shape have exactly one member, whose shape normalizes to
  a scalar, and let the record not normalize to a scalar itself. A member that is not
  ignored and refers to the record directly, or to a list of it, makes no recursive call
  and adds no model: the loop appends one property, a scalar or an array of scalars, with
  the source path of the member name and the inner member name, and leaves \<open>result\<close> and
  \<open>visited\<close> as they are. (As the value of a map the record is compiled to a model of its
  own: see the counterexample.)
\<close>

theorem collapse_single_member_record:
  assumes "sh_cls record = StructureShape [(p_name, r)]" and "shape_for model r = Inr p_shape"
    and "simple_shape p_shape = Some p_simple" and "simple_shape record = None"
    and "to_snake name \<notin> ignore_props"
  shows "prop_step rec model prefix prop_prefix name record (result, props, visited) =
           Some (Inr (result,
             props @ [new_property (prop_prefix @ to_snake name) (Path [name, p_name]) p_simple
                        (sh_documentation record)],
             visited))
       \<and> (simple_shape lst = None \<and> sh_cls lst = ListShape member_ref
            \<and> shape_for model member_ref = Inr record
          \<longrightarrow> prop_step rec model prefix prop_prefix name lst (result, props, visited) =
                Some (Inr (result,
                  props @ [(new_property (prop_prefix @ to_snake name) (Path [name, p_name]) p_simple
                              (sh_documentation lst))
                           \<lparr>ap_is_array := True,
                            ap_extractor := Some (''S('' @ quoted name
                              @ '', default=[]) >> ForallBend(S('' @ quoted p_name @ ''))'')\<rparr>],
                  visited)))"
  using prop_step_structure_collapse [OF assms(5,4,1,2,3)]
    prop_step_list_collapse [OF assms(5) _ _ _ assms(4,1,2,3)]
  by blast

theorem collapse_single_member_record_witness:
  "sh_cls (demo_shape ''Owner'') = StructureShape [(''Name'', ''String'')]
   \<and> shape_for demo ''String'' = Inr (demo_shape ''String'')
   \<and> simple_shape (demo_shape ''String'') = Some ''str''
   \<and> simple_shape (demo_shape ''Owner'') = None
   \<and> to_snake ''Owner'' \<notin> ignore_props
   \<and> prop_step (\<lambda>s v. None) demo ''Demo'' [] ''Owner'' (demo_shape ''Owner'') ([], [], {})
       = Some (Inr ([], [new_property ''owner'' (Path [''Owner'', ''Name'']) ''str'' []], {}))
   \<and> simple_shape (demo_shape ''OwnerList'') = None
   \<and> sh_cls (demo_shape ''OwnerList'') = ListShape ''Owner''
   \<and> shape_for demo ''Owner'' = Inr (demo_shape ''Owner'')
   \<and> prop_step (\<lambda>s v. None) demo ''Demo'' [] ''Owner'' (demo_shape ''OwnerList'') ([], [], {})
       = Some (Inr ([],
           [(new_property ''owner'' (Path [''Owner'', ''Name'']) ''str'' [])
              \<lparr>ap_is_array := True,
               ap_extractor := Some (''S('' @ quoted ''Owner''
                 @ '', default=[]) >> ForallBend(S('' @ quoted ''Name'' @ ''))'')\<rparr>], {}))"
proof -
  have 1: "sh_cls (demo_shape ''Owner'') = StructureShape [(''Name'', ''String'')]" by code_simp
  have 2: "shape_for demo ''String'' = Inr (demo_shape ''String'')" by code_simp
  have 3: "simple_shape (demo_shape ''String'') = Some ''str''" by code_simp
  have 4: "simple_shape (demo_shape ''Owner'') = None" by code_simp
  have 5: "to_snake ''Owner'' \<notin> ignore_props" by code_simp
  have 6: "simple_shape (demo_shape ''OwnerList'') = None" by code_simp
  have 7: "sh_cls (demo_shape ''OwnerList'') = ListShape ''Owner''" by code_simp
  have 8: "shape_for demo ''Owner'' = Inr (demo_shape ''Owner'')" by code_simp
  have 9: "to_snake ''Owner'' = ''owner''" by code_simp
  have 10: "sh_documentation (demo_shape ''Owner'') = []" "sh_documentation (demo_shape ''OwnerList'') = []"
    by code_simp+
  from collapse_single_member_record [OF 1 2 3 4 5, where rec = "\<lambda>s v. None" and prefix = "''Demo''"
      and prop_prefix = "[]" and result = "[]" and props = "[]" and visited = "{}"
      and lst = "demo_shape ''OwnerList''" and member_ref = "''Owner''"]
    1 2 3 4 5 6 7 8
  show ?thesis unfolding 9 10 by simp
qed

theorem collapse_single_member_record_counterexample:
  "sh_cls (demo_shape ''Owner'') = StructureShape [(''Name'', ''String'')]
   \<and> simple_shape (demo_shape ''String'') = Some ''str''
   \<and> sh_cls (demo_shape ''Holder'') = StructureShape [(''Owners'', ''OwnerMap'')]
   \<and> sh_cls (demo_shape ''OwnerMap'') = MapShape ''String'' ''Owner''
   \<and> all_models 2 (\<lambda>name. demo) [(''demo'', [root_spec ''Holder''])]
       = Some (Inr
          [\<lparr>am_name = ''AwsDemoOwner'',
            am_props = [new_property ''name'' (Member ''Name'') ''str'' []],
            am_aggregate_root = False, am_base_class = None, am_api_info = None\<rparr>,
           \<lparr>am_name = ''AwsDemoHolder'',
            am_props = [new_property ''owners'' (Member ''Owners'') ''Dict[str, AwsDemoOwner]'' []],
            am_aggregate_root = True, am_base_class = None,
            am_api_info = Some (''demo'', ''list'', ''Items'')\<rparr>])"
  by code_simp

section \<open>Map members\<close>

text \<open>
  C5, as amended: for a member that is not ignored and whose shape is a map that does not
  itself normalize to a scalar, the loop raises the assertion error, naming the key
  shape, when the key shape does not normalize to a scalar. When it does, the value
  shape is compiled by a recursive call; if that call returns, its models are appended
  and one property that is neither an array nor complex, typed \<open>Dict[key, value]\<close>, is
  emitted, and if it raises, its error is the error of the loop. So, when the recursive
  call raises no assertion error, the member raises one exactly when its key shape does
  not normalize to a scalar. (An ignored member, or a map that normalizes to a scalar by
  its name, is never inspected: see the counterexample.)
\<close>

theorem map_member_key:
  assumes "to_snake name \<notin> ignore_props" and "simple_shape prop_shape = None"
    and "sh_cls prop_shape = MapShape key_ref value_ref" and "shape_for model key_ref = Inr key"
  shows "(simple_shape key = None
          \<longrightarrow> prop_step rec model prefix prop_prefix name prop_shape (result, props, visited) =
                Some (Inl (AssertionError (''Key type must be a simple type: '' @ sh_name key))))
       \<and> (simple_shape key = Some key_type \<and> shape_for model value_ref = Inr val
          \<longrightarrow> prop_step rec model prefix prop_prefix name prop_shape (result, props, visited) =
                (case rec val visited of
                   None \<Rightarrow> None
                 | Some (Inl e) \<Rightarrow> Some (Inl e)
                 | Some (Inr (r, visited')) \<Rightarrow>
                     Some (Inr (result @ r,
                       props @ [new_property (prop_prefix @ to_snake name) (Member name)
                                  (''Dict['' @ key_type @ '', '' @ type_name (Some prefix) val @ '']'')
                                  (sh_documentation prop_shape)],
                       visited'))))
       \<and> ((\<forall>s v msg. rec s v \<noteq> Some (Inl (AssertionError msg)))
          \<longrightarrow> ((\<exists>msg. prop_step rec model prefix prop_prefix name prop_shape (result, props, visited)
                         = Some (Inl (AssertionError msg)))
               \<longleftrightarrow> simple_shape key = None))"
proof (intro conjI impI)
  assume "simple_shape key = None"
  then show "prop_step rec model prefix prop_prefix name prop_shape (result, props, visited) =
                Some (Inl (AssertionError (''Key type must be a simple type: '' @ sh_name key)))"
    by (rule prop_step_map(1) [OF assms])
next
  assume "simple_shape key = Some key_type \<and> shape_for model value_ref = Inr val"
  then show "prop_step rec model prefix prop_prefix name prop_shape (result, props, visited) =
                (case rec val visited of
                   None \<Rightarrow> None
                 | Some (Inl e) \<Rightarrow> Some (Inl e)
                 | Some (Inr (r, visited')) \<Rightarrow>
                     Some (Inr (result @ r,
                       props @ [new_property (prop_prefix @ to_snake name) (Member name)
                                  (''Dict['' @ key_type @ '', '' @ type_name (Some prefix) val @ '']'')
                                  (sh_documentation prop_shape)],
                       visited')))"
    by (intro prop_step_map(2) [OF assms]) simp_all
next
  assume quiet: "\<forall>s v msg. rec s v \<noteq> Some (Inl (AssertionError msg))"
  show "(\<exists>msg. prop_step rec model prefix prop_prefix name prop_shape (result, props, visited)
                         = Some (Inl (AssertionError msg)))
               \<longleftrightarrow> simple_shape key = None"
  proof (cases "simple_shape key")
    case None
    with prop_step_map(1) [OF assms None, of rec prefix prop_prefix result props visited]
    show ?thesis by simp
  next
    case (Some key_type)
    show ?thesis
    proof (cases "shape_for model value_ref")
      case (Inl e)
      with assms Some shape_for_Inl [OF Inl] show ?thesis by (simp add: prop_step_def)
    next
      case (Inr val)
      from prop_step_map(2) [OF assms Some Inr, of rec prefix prop_prefix result props visited]
        quiet Some
      show ?thesis by (auto split: option.splits sum.splits)
    qed
  qed
qed

theorem map_member_key_witness:
  "to_snake ''Index'' \<notin> ignore_props
   \<and> simple_shape (demo_shape ''BadMap'') = None
   \<and> sh_cls (demo_shape ''BadMap'') = MapShape ''Row'' ''String''
   \<and> shape_for demo ''Row'' = Inr (demo_shape ''Row'')
   \<and> simple_shape (demo_shape ''Row'') = None
   \<and> prop_step (\<lambda>s v. Some (Inr ([], v))) demo ''Demo'' [] ''Index'' (demo_shape ''BadMap'') ([], [], {})
       = Some (Inl (AssertionError ''Key type must be a simple type: Row''))
   \<and> to_snake ''Owners'' \<notin> ignore_props
   \<and> simple_shape (demo_shape ''OwnerMap'') = None
   \<and> sh_cls (demo_shape ''OwnerMap'') = MapShape ''String'' ''Owner''
   \<and> shape_for demo ''String'' = Inr (demo_shape ''String'')
   \<and> simple_shape (demo_shape ''String'') = Some ''str''
   \<and> shape_for demo ''Owner'' = Inr (demo_shape ''Owner'')
   \<and> (\<forall>s v msg. Some (Inr ([], v)) \<noteq> (Some (Inl (AssertionError msg)) :: (AwsModel list \<times> string set) run))
   \<and> prop_step (\<lambda>s v. Some (Inr ([], v))) demo ''Demo'' [] ''Owners'' (demo_shape ''OwnerMap'') ([], [], {})
       = Some (Inr ([], [new_property ''owners'' (Member ''Owners'') ''Dict[str, AwsDemoOwner]'' []], {}))
   \<and> (\<nexists>msg. prop_step (\<lambda>s v. Some (Inr ([], v))) demo ''Demo'' [] ''Owners'' (demo_shape ''OwnerMap'')
                ([], [], {}) = Some (Inl (AssertionError msg)))"
proof -
  let ?rec = "\<lambda>(s::shape) (v::string set). Some (Inr ([], v)) :: (AwsModel list \<times> string set) run"
  have 1: "to_snake ''Index'' \<notin> ignore_props" by code_simp
  have 2: "simple_shape (demo_shape ''BadMap'') = None" by code_simp
  have 3: "sh_cls (demo_shape ''BadMap'') = MapShape ''Row'' ''String''" by code_simp
  have 4: "shape_for demo ''Row'' = Inr (demo_shape ''Row'')" by code_simp
  have 5: "simple_shape (demo_shape ''Row'') = None" by code_simp
  have 6: "to_snake ''Owners'' \<notin> ignore_props" by code_simp
  have 7: "simple_shape (demo_shape ''OwnerMap'') = None" by code_simp
  have 8: "sh_cls (demo_shape ''OwnerMap'') = MapShape ''String'' ''Owner''" by code_simp
  have 9: "shape_for demo ''String'' = Inr (demo_shape ''String'')" by code_simp
  have 10: "simple_shape (demo_shape ''String'') = Some ''str''" by code_simp
  have 11: "shape_for demo ''Owner'' = Inr (demo_shape ''Owner'')" by code_simp
  have 12: "\<forall>s v msg. ?rec s v \<noteq> Some (Inl (AssertionError msg))" by simp
  have 13: "''Key type must be a simple type: '' @ sh_name (demo_shape ''Row'')
              = ''Key type must be a simple type: Row''" by code_simp
  have 14: "new_property ([] @ to_snake ''Owners'') (Member ''Owners'')
              (''Dict['' @ ''str'' @ '', '' @ type_name (Some ''Demo'') (demo_shape ''Owner'') @ '']'')
              (sh_documentation (demo_shape ''OwnerMap''))
            = new_property ''owners'' (Member ''Owners'') ''Dict[str, AwsDemoOwner]'' []" by code_simp
  note bad = map_member_key [OF 1 2 3 4, where rec = ?rec and prefix = "''Demo''" and prop_prefix = "[]"
      and result = "[]" and props = "[]" and visited = "{}"]
  note good = map_member_key [OF 6 7 8 9, where rec = ?rec and prefix = "''Demo''" and prop_prefix = "[]"
      and result = "[]" and props = "[]" and visited = "{}" and key_type = "''str''"
      and val = "demo_shape ''Owner''"]
  from bad 5 have a: "prop_step ?rec demo ''Demo'' [] ''Index'' (demo_shape ''BadMap'') ([], [], {})
       = Some (Inl (AssertionError ''Key type must be a simple type: Row''))"
    unfolding 13 by blast
  from good 10 11 have b: "prop_step ?rec demo ''Demo'' [] ''Owners'' (demo_shape ''OwnerMap'') ([], [], {})
       = Some (Inr ([], [new_property ''owners'' (Member ''Owners'') ''Dict[str, AwsDemoOwner]'' []], {}))"
    unfolding 14 by simp
  from good 10 12 have c: "\<nexists>msg. prop_step ?rec demo ''Demo'' [] ''Owners'' (demo_shape ''OwnerMap'')
                ([], [], {}) = Some (Inl (AssertionError msg))"
    by simp
  from 1 2 3 4 5 a 6 7 8 9 10 11 12 b c show ?thesis by blast
qed

theorem map_member_key_counterexample:
  "sh_cls (demo_shape ''Tagged'') = StructureShape [(''Tags'', ''BadMap'')]
   \<and> sh_cls (demo_shape ''BadMap'') = MapShape ''Row'' ''String''
   \<and> simple_shape (demo_shape ''Row'') = None
   \<and> all_models 2 (\<lambda>name. demo) [(''demo'', [root_spec ''Tagged''])]
       = Some (Inr
          [\<lparr>am_name = ''AwsDemoTagged'', am_props = [], am_aggregate_root = True,
            am_base_class = None, am_api_info = Some (''demo'', ''list'', ''Items'')\<rparr>])"
  by code_simp

section \<open>The fixed entries of a root\<close>

text \<open>
  C2, as amended: for every model that is an aggregate root, with or without a base
  class, the mapping that \<open>to_class\<close> renders starts with exactly six fixed entries, in
  this order: \<open>id\<close>, \<open>tags\<close> and \<open>name\<close> (both read from \<open>Tags\<close>), and the three
  constant-null placeholders \<open>ctime\<close>, \<open>mtime\<close> and \<open>atime\<close>; the entries of the
  properties of the model follow them.
\<close>

theorem root_mapping_entries:
  assumes "am_aggregate_root m"
  shows "map fst base_mapping = [''id'', ''tags'', ''name'', ''ctime'', ''mtime'', ''atime'']
       \<and> class_mapping m =
           ''    mapping: ClassVar[Dict[str, Bender]] = {'' @ nl
           @ ''        '' @ quoted ''id'' @ '': S('' @ quoted ''id'' @ ''),'' @ nl
           @ ''        '' @ quoted ''tags'' @ '': S('' @ quoted ''Tags'' @ '', default=[]) >> TagsToDict(),'' @ nl
           @ ''        '' @ quoted ''name'' @ '': S('' @ quoted ''Tags''
               @ '', default=[]) >> TagsValue('' @ quoted ''Name'' @ ''),'' @ nl
           @ ''        '' @ quoted ''ctime'' @ '': K(None),'' @ nl
           @ ''        '' @ quoted ''mtime'' @ '': K(None),'' @ nl
           @ ''        '' @ quoted ''atime'' @ '': K(None),'' @ nl
           @ join ('','' @ nl) (map (\<lambda>p. ''        '' @ mapping p) (am_props m))
           @ nl @ ''    }''"
  using assms by (simp add: class_mapping_def base_mapping_def)

theorem root_mapping_entries_witness:
  "am_aggregate_root demo_root
   \<and> class_mapping demo_root =
       ''    mapping: ClassVar[Dict[str, Bender]] = {'' @ nl
       @ ''        '' @ quoted ''id'' @ '': S('' @ quoted ''id'' @ ''),'' @ nl
       @ ''        '' @ quoted ''tags'' @ '': S('' @ quoted ''Tags'' @ '', default=[]) >> TagsToDict(),'' @ nl
       @ ''        '' @ quoted ''name'' @ '': S('' @ quoted ''Tags''
           @ '', default=[]) >> TagsValue('' @ quoted ''Name'' @ ''),'' @ nl
       @ ''        '' @ quoted ''ctime'' @ '': K(None),'' @ nl
       @ ''        '' @ quoted ''mtime'' @ '': K(None),'' @ nl
       @ ''        '' @ quoted ''atime'' @ '': K(None),'' @ nl
       @ ''        '' @ quoted ''size'' @ '': S('' @ quoted ''Size'' @ '')''
       @ nl @ ''    }''"
proof -
  have root: "am_aggregate_root demo_root" by (simp add: demo_root_def)
  have props: "join ('','' @ nl) (map (\<lambda>p. ''        '' @ mapping p) (am_props demo_root))
               = ''        '' @ quoted ''size'' @ '': S('' @ quoted ''Size'' @ '')''"
    by (simp add: demo_root_def mapping_def new_property_def)
  from root_mapping_entries [OF root] root show ?thesis unfolding props by simp
qed

theorem root_mapping_entries_counterexample:
  "am_aggregate_root demo_root \<and> am_base_class demo_root = None
   \<and> length base_mapping = 6
   \<and> class_mapping demo_root \<noteq>
       ''    mapping: ClassVar[Dict[str, Bender]] = {'' @ nl
       @ ''        '' @ quoted ''id'' @ '': S('' @ quoted ''id'' @ ''),'' @ nl
       @ ''        '' @ quoted ''tags'' @ '': S('' @ quoted ''Tags'' @ '', default=[]) >> TagsToDict(),'' @ nl
       @ ''        '' @ quoted ''name'' @ '': S('' @ quoted ''Tags''
           @ '', default=[]) >> TagsValue('' @ quoted ''Name'' @ ''),'' @ nl
       @ ''        '' @ quoted ''ctime'' @ '': K(None),'' @ nl
       @ ''        '' @ quoted ''mtime'' @ '': K(None),'' @ nl
       @ ''        '' @ quoted ''size'' @ '': S('' @ quoted ''Size'' @ '')''
       @ nl @ ''    }''
   \<and> to_class demo_root =
       ''@define(eq=False, slots=False)'' @ nl
       @ ''class AwsDemoWidget(AwsResource):'' @ nl
       @ ''    kind: ClassVar[str] = '' @ quoted ''aws_demo_widget'' @ nl
       @ ''    api_info: ClassVar[AwsApiSpec] = AwsApiSpec('' @ quoted ''demo'' @ '', ''
           @ quoted ''list-widgets'' @ '', '' @ quoted ''Widgets'' @ '')'' @ nl
       @ ''    mapping: ClassVar[Dict[str, Bender]] = {'' @ nl
       @ ''        '' @ quoted ''id'' @ '': S('' @ quoted ''id'' @ ''),'' @ nl
       @ ''        '' @ quoted ''tags'' @ '': S('' @ quoted ''Tags'' @ '', default=[]) >> TagsToDict(),'' @ nl
       @ ''        '' @ quoted ''name'' @ '': S('' @ quoted ''Tags''
           @ '', default=[]) >> TagsValue('' @ quoted ''Name'' @ ''),'' @ nl
       @ ''        '' @ quoted ''ctime'' @ '': K(None),'' @ nl
       @ ''        '' @ quoted ''mtime'' @ '': K(None),'' @ nl
       @ ''        '' @ quoted ''atime'' @ '': K(None),'' @ nl
       @ ''        '' @ quoted ''size'' @ '': S('' @ quoted ''Size'' @ '')'' @ nl
       @ ''    }'' @ nl
       @ ''    size: Optional[int] = field(default=None)'' @ nl"
  by code_simp

end
